theory Spec2Isabelle
  imports Main "HOL-Library.Sublist" "HOL-Library.Multiset"
begin

section \<open>The authentication gate: middleware.ts and the dashboard layout\<close>

text \<open>
  The middleware sees the pathname of the request and the session that the auth wrapper
  attached to it (\<open>req.auth\<close>, a session or null). A session may carry a user.
\<close>

record session =
  session_user :: "string option"

record next_request =
  pathname :: string
  auth :: "session option"

text \<open>
  The handler either returns a redirect response or returns nothing, in which case the
  request continues to the page (\<open>Next\<close>).
\<close>

datatype middleware_result = Redirect string | Next

definition middleware :: "next_request \<Rightarrow> middleware_result" where
  "middleware req =
     (let isLoggedIn = (auth req \<noteq> None);
          isOnDashboard = prefix ''/dashboard'' (pathname req)
      in if isOnDashboard \<and> \<not> isLoggedIn then Redirect ''/'' else Next)"

text \<open>
  \<open>config.matcher\<close> is the single pattern \<^verbatim>\<open>/((?!api|_next/static|_next/image|favicon.ico).*)\<close>:
  a leading slash whose remainder does not begin with one of the four alternatives. The
  dot of \<^verbatim>\<open>favicon.ico\<close> is a regular-expression dot and stands for any one character.
\<close>

definition favicon_alternative :: "string \<Rightarrow> bool" where
  "favicon_alternative rest =
     (11 \<le> length rest \<and> take 7 rest = ''favicon'' \<and> take 3 (drop 8 rest) = ''ico'')"

definition matcher :: "string \<Rightarrow> bool" where
  "matcher p =
     (case p of
        [] \<Rightarrow> False
      | c # rest \<Rightarrow>
          c = CHR ''/'' \<and> \<not> prefix ''api'' rest \<and> \<not> prefix ''_next/static'' rest
          \<and> \<not> prefix ''_next/image'' rest \<and> \<not> favicon_alternative rest)"

text \<open>The middleware runs on the requests the matcher selects; the others continue.\<close>

definition run_middleware :: "next_request \<Rightarrow> middleware_result" where
  "run_middleware req = (if matcher (pathname req) then middleware req else Next)"

text \<open>
  \<open>DashboardLayout\<close> reads the session again and redirects when \<open>session?.user\<close> is
  missing; otherwise it renders the dashboard for that user.
\<close>

datatype layout_result = LayoutRedirect string | Render string

definition DashboardLayout :: "session option \<Rightarrow> layout_result" where
  "DashboardLayout sess =
     (case sess of
        None \<Rightarrow> LayoutRedirect ''/''
      | Some s \<Rightarrow>
          (case session_user s of
             None \<Rightarrow> LayoutRedirect ''/''
           | Some u \<Rightarrow> Render u))"

section \<open>JavaScript values used by the API client (lib/api.ts)\<close>

text \<open>
  Strings are byte strings (UTF-8). A value that arrives from the network is a JSON value;
  \<open>JUndefined\<close> stands for a missing property or an empty body.
\<close>

text \<open>
  A number is taken by the two things this code asks of one: whether it is truthy (neither
  zero nor NaN) and the text that \<open>toString()\<close> and template literals give for it.
\<close>

record js_number =
  number_truthy :: bool
  number_text :: string

datatype json =
    JUndefined
  | JNull
  | JBool bool
  | JNum js_number
  | JStr string
  | JArr "json list"
  | JObj "(string \<times> json) list"

text \<open>Truthiness, as \<open>!x\<close>, \<open>x || y\<close> and \<open>if (x)\<close> test it.\<close>

fun truthy :: "json \<Rightarrow> bool" where
  "truthy JUndefined = False"
| "truthy JNull = False"
| "truthy (JBool b) = b"
| "truthy (JNum n) = number_truthy n"
| "truthy (JStr s) = (s \<noteq> [])"
| "truthy (JArr xs) = True"
| "truthy (JObj kvs) = True"

definition js_or :: "json \<Rightarrow> json \<Rightarrow> json" where
  "js_or a b = (if truthy a then a else b)"

text \<open>
  \<open>v?.k\<close> for the keys this file reads (\<open>detail\<close>, \<open>message\<close>, \<open>results\<close>): an object
  yields the property or undefined, and every other value, null and undefined included,
  yields undefined.
\<close>

fun opt_prop :: "json \<Rightarrow> string \<Rightarrow> json" where
  "opt_prop (JObj kvs) k = (case map_of kvs k of None \<Rightarrow> JUndefined | Some v \<Rightarrow> v)"
| "opt_prop v k = JUndefined"

text \<open>
  What a \<open>try\<close> block can catch: an error of the HTTP library (with the body of the
  response when one came, and its message), any other \<open>Error\<close> instance with its
  message, or a thrown value that is no \<open>Error\<close>.
\<close>

datatype thrown =
    AxiosError "json option" string
  | JsError string
  | ThrownValue json



text \<open>
  Decimal rendering of the integers this code prints itself (readings of \<open>Date.now()\<close>,
  indices, status codes, line numbers), all far below the size at which \<open>toString()\<close>
  changes to exponent notation.
  \<open>digit_char\<close> is applied to numbers below ten only, \<open>hex_char\<close> to numbers below
  sixteen only.
\<close>

definition digit_char :: "nat \<Rightarrow> char" where
  "digit_char d = ''0123456789'' ! d"

fun show_nat :: "nat \<Rightarrow> string" where
  "show_nat n = (if n < 10 then [digit_char n] else show_nat (n div 10) @ [digit_char (n mod 10)])"

declare show_nat.simps [simp del]









fun join_with :: "string \<Rightarrow> string list \<Rightarrow> string" where
  "join_with sep [] = []"
| "join_with sep [x] = x"
| "join_with sep (x # y # ys) = x @ sep @ join_with sep (y # ys)"


section \<open>The API client (lib/api.ts)\<close>

datatype http_method = GET | POST | DELETE

type_synonym axios_config = "(string \<times> string) list"

record http_request =
  req_method :: http_method
  req_url :: string
  req_body :: "json option"
  req_headers :: axios_config







record 'a api_response =
  success :: bool
  data :: "'a option"
  error :: "json option"

text \<open>The helper at the end of the file, which every \<open>catch\<close> block calls.\<close>

fun getErrorMessage :: "thrown \<Rightarrow> json" where
  "getErrorMessage (AxiosError response msg) =
     (let d = (case response of None \<Rightarrow> JUndefined | Some b \<Rightarrow> b)
      in js_or (js_or (opt_prop d ''detail'') (opt_prop d ''message'')) (JStr msg))"
| "getErrorMessage (JsError msg) = JStr msg"
| "getErrorMessage (ThrownValue v) = JStr ''An unexpected error occurred''"

text \<open>The three object literals the functions return.\<close>

definition succeed :: "'a \<Rightarrow> 'a api_response" where
  "succeed d = \<lparr>success = True, data = Some d, error = None\<rparr>"


definition failed :: "thrown \<Rightarrow> 'a api_response" where
  "failed e = \<lparr>success = False, data = None, error = Some (getErrorMessage e)\<rparr>"




subsection \<open>Project APIs\<close>





subsection \<open>Analysis APIs\<close>








definition nonempty_opt :: "string option \<Rightarrow> string option" where
  "nonempty_opt s = (case s of None \<Rightarrow> None | Some v \<Rightarrow> if v = [] then None else Some v)"




subsection \<open>Function references and calls\<close>




subsection \<open>Chart and file APIs\<close>





subsection \<open>Chat history and health\<close>







subsection \<open>Chat API: \<open>sendChatMessage\<close>\<close>

datatype role = User | Assistant

record chat_message =
  msg_id :: string
  role :: role
  content :: string
  timestamp :: nat

text \<open>
  The body of a \<open>fetch\<close> response is read through a reader: the \<open>n\<close>-th call of
  \<open>reader.read()\<close> yields a block of bytes, reports the end of the stream, or throws.
  Nothing bounds the number of blocks, so a body may never end.
\<close>

datatype read_result = ReadValue string | ReadDone | ReadFailed thrown

type_synonym body_reader = "nat \<Rightarrow> read_result"

record fetch_response =
  ok :: bool
  body :: "body_reader option"

text \<open>
  What the function takes from the browser: the configured base URL, \<open>fetch\<close>, the
  streaming \<open>TextDecoder\<close> (its state and its \<open>decode(value, {stream: true})\<close>),
  \<open>crypto.randomUUID()\<close> and the clock.
\<close>

record 'd browser =
  env_api_url :: "string option"
  fetch :: "http_request \<Rightarrow> thrown + fetch_response"
  new_decoder :: 'd
  decode :: "'d \<Rightarrow> string \<Rightarrow> string \<times> 'd"
  randomUUID :: string
  clock :: nat

definition API_BASE_URL :: "string option \<Rightarrow> string" where
  "API_BASE_URL env = (case nonempty_opt env of Some u \<Rightarrow> u | None \<Rightarrow> ''http://localhost:8000'')"

text \<open>
  The observable steps of the read loop, in the order they happen: a call of
  \<open>reader.read()\<close>, the text a block decodes to, and a call of \<open>onChunk\<close> with its
  argument.
\<close>

datatype stream_event = Read | Decoded string | Emit string

record ('d, 's) reading =
  fullContent :: string
  decoder :: 'd
  caller :: 's
  events :: "stream_event list"

text \<open>
  The \<open>while (true)\<close> loop. The callback is optional and works on the caller's state; it
  may throw. The result is the exception that left the loop, if any, and the state
  reached; \<open>None\<close> is a loop that never ends.
\<close>

partial_function (option) read_loop ::
  "('d \<Rightarrow> string \<Rightarrow> string \<times> 'd) \<Rightarrow> (string \<Rightarrow> 's \<Rightarrow> thrown + 's) option \<Rightarrow> body_reader
     \<Rightarrow> nat \<Rightarrow> ('d, 's) reading \<Rightarrow> (thrown option \<times> ('d, 's) reading) option" where
  "read_loop dec onChunk reader n st =
     (case reader n of
        ReadFailed e \<Rightarrow> Some (Some e, st\<lparr>events := events st @ [Read]\<rparr>)
      | ReadDone \<Rightarrow> Some (None, st\<lparr>events := events st @ [Read]\<rparr>)
      | ReadValue v \<Rightarrow>
          (case dec (decoder st) v of
             (chunk, d') \<Rightarrow>
               (let st1 = st\<lparr>decoder := d', fullContent := fullContent st @ chunk,
                              events := events st @ [Read, Decoded chunk]\<rparr>
                in case onChunk of
                     None \<Rightarrow> read_loop dec onChunk reader (n + 1) st1
                   | Some f \<Rightarrow>
                       (case f chunk (caller st1) of
                          Inl e \<Rightarrow> Some (Some e, st1\<lparr>events := events st1 @ [Emit chunk]\<rparr>)
                        | Inr c \<Rightarrow>
                            read_loop dec onChunk reader (n + 1)
                              (st1\<lparr>caller := c, events := events st1 @ [Emit chunk]\<rparr>)))))"

definition sendChatMessage ::
  "'d browser \<Rightarrow> string \<Rightarrow> string \<Rightarrow> string option \<Rightarrow> (string \<Rightarrow> 's \<Rightarrow> thrown + 's) option \<Rightarrow> 's
     \<Rightarrow> (chat_message api_response \<times> 's \<times> stream_event list) option" where
  "sendChatMessage br projectId message userId onChunk c0 =
     (let headers = [(''Content-Type'', ''application/json'')];
          headers = (case nonempty_opt userId of
                       Some u \<Rightarrow> headers @ [(''X-User-Id'', u)]
                     | None \<Rightarrow> headers)
      in case fetch br \<lparr>req_method = POST,
                         req_url = API_BASE_URL (env_api_url br) @ ''/api/projects/'' @ projectId @ ''/chat'',
                         req_body = Some (JObj [(''message'', JStr message)]),
                         req_headers = headers\<rparr> of
           Inl e \<Rightarrow> Some (failed e, c0, [])
         | Inr response \<Rightarrow>
             if \<not> ok response then Some (failed (JsError ''Failed to send message''), c0, [])
             else
               (case body response of
                  None \<Rightarrow>
                    Some (succeed \<lparr>msg_id = randomUUID br, role = Assistant, content = [],
                                   timestamp = clock br\<rparr>, c0, [])
                | Some reader \<Rightarrow>
                    (case read_loop (decode br) onChunk reader 0
                            \<lparr>fullContent = [], decoder = new_decoder br, caller = c0, events = []\<rparr> of
                       None \<Rightarrow> None
                     | Some (Some e, st) \<Rightarrow> Some (failed e, caller st, events st)
                     | Some (None, st) \<Rightarrow>
                         Some (succeed \<lparr>msg_id = randomUUID br, role = Assistant,
                                        content = fullContent st, timestamp = clock br\<rparr>,
                               caller st, events st))))"

text \<open>
  Reading the steps of a turn. \<open>is_value\<close> tells a block of bytes from the end of the
  stream and from a failure; \<open>emitted\<close> and \<open>decoded\<close> are the chunks passed to the
  callback and the chunks the decoder produced, in order. \<open>relayed\<close> holds of a sequence
  of steps in which every read that yields a chunk is followed at once by the call of
  the callback with that chunk, and by nothing else before the next read.
\<close>

fun is_value :: "read_result \<Rightarrow> bool" where
  "is_value (ReadValue v) = True"
| "is_value r = False"

fun emitted :: "stream_event list \<Rightarrow> string list" where
  "emitted [] = []"
| "emitted (Emit c # evs) = c # emitted evs"
| "emitted (e # evs) = emitted evs"

fun decoded :: "stream_event list \<Rightarrow> string list" where
  "decoded [] = []"
| "decoded (Decoded c # evs) = c # decoded evs"
| "decoded (e # evs) = decoded evs"

fun relayed :: "stream_event list \<Rightarrow> bool" where
  "relayed [] = True"
| "relayed [Read] = True"
| "relayed (Read # Decoded c # Emit c' # rest) = (c = c' \<and> relayed rest)"
| "relayed evs = False"




text \<open>
  The request that \<open>sendChatMessage\<close> hands to \<open>fetch\<close>, and three readings of a response
  body used to state what the loop does with it: \<open>yields reader n bs\<close> says that the reads
  from the \<open>n\<close>-th on deliver the blocks \<open>bs\<close>, in this order; \<open>decode_blocks\<close> runs the
  streaming decoder over blocks, giving the chunks and the decoder's last state; and
  \<open>relay_steps chunks\<close> is the sequence of steps in which each chunk is read, decoded and
  passed to the callback before the next one is read.
\<close>

definition chat_request :: "'d browser \<Rightarrow> string \<Rightarrow> string \<Rightarrow> string option \<Rightarrow> http_request" where
  "chat_request br projectId message userId =
     \<lparr>req_method = POST,
      req_url = API_BASE_URL (env_api_url br) @ ''/api/projects/'' @ projectId @ ''/chat'',
      req_body = Some (JObj [(''message'', JStr message)]),
      req_headers = (case nonempty_opt userId of
                       Some u \<Rightarrow> [(''Content-Type'', ''application/json''), (''X-User-Id'', u)]
                     | None \<Rightarrow> [(''Content-Type'', ''application/json'')])\<rparr>"

fun yields :: "body_reader \<Rightarrow> nat \<Rightarrow> string list \<Rightarrow> bool" where
  "yields reader n [] = True"
| "yields reader n (v # vs) = (reader n = ReadValue v \<and> yields reader (Suc n) vs)"

fun decode_blocks :: "('d \<Rightarrow> string \<Rightarrow> string \<times> 'd) \<Rightarrow> 'd \<Rightarrow> string list \<Rightarrow> string list \<times> 'd" where
  "decode_blocks dec d [] = ([], d)"
| "decode_blocks dec d (v # vs) =
     (case dec d v of
        (chunk, d') \<Rightarrow> (case decode_blocks dec d' vs of (chunks, d'') \<Rightarrow> (chunk # chunks, d'')))"

definition relay_steps :: "string list \<Rightarrow> stream_event list" where
  "relay_steps chunks = concat (map (\<lambda>ch. [Read, Decoded ch, Emit ch]) chunks)"

section \<open>The dashboard page: \<open>handleAnalyzeProject\<close>\<close>

datatype project_status = Pending | Analyzing | Ready | Errored

definition status_text :: "project_status \<Rightarrow> string" where
  "status_text st =
     (case st of Pending \<Rightarrow> ''pending'' | Analyzing \<Rightarrow> ''analyzing''
               | Ready \<Rightarrow> ''ready'' | Errored \<Rightarrow> ''error'')"

record project =
  project_id :: string
  project_name :: string
  repoUrl :: string
  project_description :: "string option"
  status :: project_status
  project_userId :: string
  totalEntities :: "nat option"


record dashboard_state =
  projects :: "project list"
  analyzingProjects :: "string set"
  dashboard_error :: "json option"

definition error_or :: "'a api_response \<Rightarrow> string \<Rightarrow> json" where
  "error_or result fallback =
     js_or (case error result of None \<Rightarrow> JUndefined | Some e \<Rightarrow> e) (JStr fallback)"



section \<open>The chat page\<close>

text \<open>\<open>String(v)\<close>, as a template literal applies it.\<close>

fun js_string :: "json \<Rightarrow> string" where
  "js_string JUndefined = ''undefined''"
| "js_string JNull = ''null''"
| "js_string (JBool b) = (if b then ''true'' else ''false'')"
| "js_string (JNum n) = number_text n"
| "js_string (JStr s) = s"
| "js_string (JArr xs) =
     join_with '','' (map (\<lambda>x. if x = JNull \<or> x = JUndefined then [] else js_string x) xs)"
| "js_string (JObj kvs) = ''[object Object]''"

text \<open>
  \<open>trim()\<close> removes white space and line terminators from both ends: the ASCII ones (tab,
  line feed, vertical tab, form feed, carriage return, space) and, in their UTF-8
  encodings, U+00A0, U+1680, U+2000 to U+200A, U+2028, U+2029, U+202F, U+205F, U+3000 and
  U+FEFF. \<open>space_at_start\<close> and \<open>space_at_end\<close> give the number of bytes of such a character
  at the start and at the end of a string, or zero.
\<close>

definition is_space :: "char \<Rightarrow> bool" where
  "is_space c = ((of_char c :: nat) \<in> {9, 10, 11, 12, 13, 32})"

definition wide_spaces :: "string list" where
  "wide_spaces =
     [[CHR 0xE1, CHR 0x9A, CHR 0x80],
      [CHR 0xE2, CHR 0x80, CHR 0x80], [CHR 0xE2, CHR 0x80, CHR 0x81],
      [CHR 0xE2, CHR 0x80, CHR 0x82], [CHR 0xE2, CHR 0x80, CHR 0x83],
      [CHR 0xE2, CHR 0x80, CHR 0x84], [CHR 0xE2, CHR 0x80, CHR 0x85],
      [CHR 0xE2, CHR 0x80, CHR 0x86], [CHR 0xE2, CHR 0x80, CHR 0x87],
      [CHR 0xE2, CHR 0x80, CHR 0x88], [CHR 0xE2, CHR 0x80, CHR 0x89],
      [CHR 0xE2, CHR 0x80, CHR 0x8A],
      [CHR 0xE2, CHR 0x80, CHR 0xA8], [CHR 0xE2, CHR 0x80, CHR 0xA9],
      [CHR 0xE2, CHR 0x80, CHR 0xAF], [CHR 0xE2, CHR 0x81, CHR 0x9F],
      [CHR 0xE3, CHR 0x80, CHR 0x80], [CHR 0xEF, CHR 0xBB, CHR 0xBF]]"

definition space_at_start :: "string \<Rightarrow> nat" where
  "space_at_start s =
     (if s = [] then 0
      else if is_space (hd s) then 1
      else if take 2 s = [CHR 0xC2, CHR 0xA0] then 2
      else if take 3 s \<in> set wide_spaces then 3
      else 0)"

definition space_at_end :: "string \<Rightarrow> nat" where
  "space_at_end s =
     (if s = [] then 0
      else if is_space (last s) then 1
      else if 2 \<le> length s \<and> drop (length s - 2) s = [CHR 0xC2, CHR 0xA0] then 2
      else if 3 \<le> length s \<and> drop (length s - 3) s \<in> set wide_spaces then 3
      else 0)"

function trimStart :: "string \<Rightarrow> string" where
  "trimStart s = (if space_at_start s = 0 then s else trimStart (drop (space_at_start s) s))"
  by pat_completeness auto
termination
  by (relation "measure length") (auto simp: space_at_start_def split: if_splits)

function trimEnd :: "string \<Rightarrow> string" where
  "trimEnd s = (if space_at_end s = 0 then s else trimEnd (take (length s - space_at_end s) s))"
  by pat_completeness auto
termination
  by (relation "measure length") (auto simp: space_at_end_def split: if_splits)

declare trimStart.simps [simp del] trimEnd.simps [simp del]

definition js_trim :: "string \<Rightarrow> string" where
  "js_trim s = trimEnd (trimStart s)"

record ui_state =
  messages :: "chat_message list"
  input :: string
  isLoading :: bool
  isInitializing :: bool
  page_error :: "string option"
  streamingContent :: string



text \<open>
  \<open>initChat\<close>, the effect that runs on mount. Its two awaited results, of \<open>getProject\<close> and
  \<open>getChatHistory\<close>, are taken at their declared types.
\<close>

definition usable :: "'a api_response \<Rightarrow> 'a option" where
  "usable result = (if success result then data result else None)"

definition initChat ::
  "project api_response \<Rightarrow> chat_message list api_response \<Rightarrow> nat \<Rightarrow> ui_state \<Rightarrow> ui_state" where
  "initChat projectResult historyResult t st =
     (let st = st\<lparr>isInitializing := True, page_error := None\<rparr>
      in case usable projectResult of
           None \<Rightarrow> st\<lparr>page_error := Some ''Project not found'', isInitializing := False\<rparr>
         | Some pr \<Rightarrow>
             if status pr \<noteq> Ready
             then st\<lparr>page_error := Some (''Project is '' @ status_text (status pr)
                                          @ ''. Please analyze it first from the dashboard.''),
                     isInitializing := False\<rparr>
             else
               (let st = (case usable historyResult of
                            None \<Rightarrow> st
                          | Some history \<Rightarrow>
                              if 0 < length history
                              then st\<lparr>messages := messages st @
                                        map (\<lambda>(idx, msg). \<lparr>msg_id = ''history-'' @ show_nat idx,
                                                             role = role msg, content = content msg,
                                                             timestamp = t\<rparr>)
                                            (enumerate 0 history)\<rparr>
                              else st)
                in st\<lparr>isInitializing := False\<rparr>))"

text \<open>
  \<open>handleSubmit\<close> in its three parts: what runs before the call of \<open>sendChatMessage\<close>,
  the callback passed as \<open>onChunk\<close>, and what runs once the call has returned. The
  arguments \<open>t\<close> are readings of the clock; the readings within one part are taken as
  one.
\<close>

definition submit_blocked :: "ui_state \<Rightarrow> bool" where
  "submit_blocked st = (js_trim (input st) = [] \<or> isLoading st)"

definition handleSubmit_begin :: "nat \<Rightarrow> ui_state \<Rightarrow> chat_message \<times> ui_state" where
  "handleSubmit_begin t st =
     (let userMessage = \<lparr>msg_id = show_nat t, role = User, content = js_trim (input st), timestamp = t\<rparr>
      in (userMessage,
          st\<lparr>messages := messages st @ [userMessage], input := [], isLoading := True,
             streamingContent := []\<rparr>))"

definition handleSubmit_onChunk :: "string \<Rightarrow> ui_state \<Rightarrow> thrown + ui_state" where
  "handleSubmit_onChunk chunk st = Inr (st\<lparr>streamingContent := streamingContent st @ chunk\<rparr>)"

definition handleSubmit_finish :: "chat_message api_response \<Rightarrow> nat \<Rightarrow> ui_state \<Rightarrow> ui_state" where
  "handleSubmit_finish result t st =
     (let st = (case usable result of
                  Some d \<Rightarrow>
                    st\<lparr>messages := messages st @
                          [\<lparr>msg_id = show_nat (t + 1), role = Assistant, content = content d,
                            timestamp = t\<rparr>]\<rparr>
                | None \<Rightarrow>
                    st\<lparr>messages := messages st @
                          [\<lparr>msg_id = show_nat (t + 1), role = Assistant,
                            content = ''Sorry, I encountered an error: ''
                                      @ js_string (error_or result ''Unknown error'')
                                      @ ''. Please try again.'',
                            timestamp = t\<rparr>]\<rparr>)
      in st\<lparr>streamingContent := [], isLoading := False\<rparr>)"

text \<open>
  One whole call of \<open>handleSubmit\<close>: the state it leaves and the steps of the read loop,
  or \<open>None\<close> when the response body never ends.
\<close>

definition handleSubmit ::
  "'d browser \<Rightarrow> string \<Rightarrow> string option \<Rightarrow> nat \<Rightarrow> nat \<Rightarrow> ui_state
     \<Rightarrow> (ui_state \<times> stream_event list) option" where
  "handleSubmit br projectId userId t0 t1 st =
     (if submit_blocked st then Some (st, [])
      else
        (case handleSubmit_begin t0 st of
           (userMessage, st1) \<Rightarrow>
             (case sendChatMessage br projectId (content userMessage) userId
                     (Some handleSubmit_onChunk) st1 of
                None \<Rightarrow> None
              | Some (result, st2, evs) \<Rightarrow> Some (handleSubmit_finish result t1 st2, evs))))"

text \<open>
  Two shorthands for what \<open>handleSubmit\<close> builds after the call: the assistant message
  created at time \<open>t\<close>, and the text shown for a caught error \<open>e\<close>, which is
  \<open>result.error || "Unknown error"\<close> between its two fixed parts.
\<close>

abbreviation error_text :: "thrown \<Rightarrow> string" where
  "error_text e \<equiv>
     ''Sorry, I encountered an error: ''
     @ js_string (js_or (getErrorMessage e) (JStr ''Unknown error''))
     @ ''. Please try again.''"

abbreviation assistant_reply :: "nat \<Rightarrow> string \<Rightarrow> chat_message" where
  "assistant_reply t text \<equiv>
     \<lparr>msg_id = show_nat (t + 1), role = Assistant, content = text, timestamp = t\<rparr>"

subsection \<open>The page as it reacts to events\<close>

text \<open>
  Between the parts of \<open>handleSubmit\<close> other events reach the page. Each event handler
  reads the state of the latest render: the state updates of a handler are applied before
  the next event is dispatched. \<open>running\<close> counts the calls of \<open>sendChatMessage\<close> that
  have been made and have not returned; the page itself does not store it.
\<close>

datatype page_event =
    InitChat "project api_response" "chat_message list api_response" nat
  | InputChanged string
  | FormSubmitted nat
  | KeyDown string bool nat
  | ChunkArrived string
  | TurnReturned "chat_message api_response" nat

record chat_page =
  ui :: ui_state
  running :: nat


definition start_turn :: "nat \<Rightarrow> chat_page \<Rightarrow> chat_page" where
  "start_turn t s =
     (if submit_blocked (ui s) then s
      else \<lparr>ui = snd (handleSubmit_begin t (ui s)), running = running s + 1\<rparr>)"

fun page_step :: "page_event \<Rightarrow> chat_page \<Rightarrow> chat_page" where
  "page_step (InitChat projectResult historyResult t) s =
     s\<lparr>ui := initChat projectResult historyResult t (ui s)\<rparr>"
| "page_step (InputChanged v) s = s\<lparr>ui := (ui s)\<lparr>input := v\<rparr>\<rparr>"
| "page_step (FormSubmitted t) s = start_turn t s"
| "page_step (KeyDown key shiftKey t) s =
     (if key = ''Enter'' \<and> \<not> shiftKey then start_turn t s else s)"
| "page_step (ChunkArrived chunk) s =
     (if running s = 0 then s
      else (case handleSubmit_onChunk chunk (ui s) of Inl e \<Rightarrow> s | Inr u \<Rightarrow> s\<lparr>ui := u\<rparr>))"
| "page_step (TurnReturned result t) s =
     (if running s = 0 then s
      else \<lparr>ui = handleSubmit_finish result t (ui s), running = running s - 1\<rparr>)"

definition run_page :: "page_event list \<Rightarrow> chat_page \<Rightarrow> chat_page" where
  "run_page evs s = foldl (\<lambda>s e. page_step e s) s evs"



section \<open>The backend parts the client talks to\<close>

subsection \<open>Direct lookup of references and calls\<close>












subsection \<open>The vector index\<close>

record ('id, 'v) vector_record =
  entityId :: 'id
  embeddingVector :: 'v

text \<open>
  Modelled from the spec: \<open>VectorIndex.search\<close>, which is not among the sources. The query
  is embedded, every record is scored by its similarity to the query, the scored records
  are ordered by descending score with ties broken by entity id, and the first \<open>k\<close> are
  returned. The embedding and the similarity are those of the embedding service.
\<close>

definition ranked_before :: "('id::linorder) \<times> ('s::linorder) \<Rightarrow> 'id \<times> 's \<Rightarrow> bool" where
  "ranked_before a b = (snd b < snd a \<or> (snd a = snd b \<and> fst a \<le> fst b))"

fun rank_insert :: "('id::linorder) \<times> ('s::linorder) \<Rightarrow> ('id \<times> 's) list \<Rightarrow> ('id \<times> 's) list" where
  "rank_insert x [] = [x]"
| "rank_insert x (y # ys) = (if ranked_before x y then x # y # ys else y # rank_insert x ys)"

definition rank_sort :: "(('id::linorder) \<times> ('s::linorder)) list \<Rightarrow> ('id \<times> 's) list" where
  "rank_sort xs = foldr rank_insert xs []"

definition score_records ::
  "('q \<Rightarrow> 'v) \<Rightarrow> ('v \<Rightarrow> 'v \<Rightarrow> 's) \<Rightarrow> ('id, 'v) vector_record list \<Rightarrow> 'q \<Rightarrow> ('id \<times> 's) list" where
  "score_records embedText similarity index q =
     map (\<lambda>r. (entityId r, similarity (embedText q) (embeddingVector r))) index"

definition search ::
  "('q \<Rightarrow> 'v) \<Rightarrow> ('v \<Rightarrow> 'v \<Rightarrow> 's::linorder) \<Rightarrow> (('id::linorder), 'v) vector_record list \<Rightarrow> 'q \<Rightarrow> nat
     \<Rightarrow> ('id \<times> 's) list" where
  "search embedText similarity index q k = take k (rank_sort (score_records embedText similarity index q))"

section \<open>Concrete inputs\<close>

text \<open>
  A browser whose \<open>fetch\<close> always answers with the given response and whose decoder
  passes ASCII bytes through; a body of two blocks; a body that ends at once; and a page
  in which the user has typed a question.
\<close>

definition example_decode :: "unit \<Rightarrow> string \<Rightarrow> string \<times> unit" where
  "example_decode d v = (v, d)"

definition example_reader :: body_reader where
  "example_reader n =
     (if n = 0 then ReadValue ''Hel'' else if n = 1 then ReadValue ''lo'' else ReadDone)"

definition empty_reader :: body_reader where
  "empty_reader n = ReadDone"

definition example_browser :: "fetch_response \<Rightarrow> unit browser" where
  "example_browser response =
     \<lparr>env_api_url = None, fetch = (\<lambda>req. Inr response), new_decoder = (),
      decode = example_decode, randomUUID = ''uuid-1'', clock = 7\<rparr>"

definition example_ui :: ui_state where
  "example_ui = \<lparr>messages = [], input = '' hi'', isLoading = False, isInitializing = False,
                 page_error = None, streamingContent = []\<rparr>"










definition example_index :: "(nat, int) vector_record list" where
  "example_index =
     [\<lparr>entityId = 2, embeddingVector = 5\<rparr>, \<lparr>entityId = 1, embeddingVector = 5\<rparr>,
      \<lparr>entityId = 3, embeddingVector = 9\<rparr>, \<lparr>entityId = 4, embeddingVector = 0\<rparr>]"

definition example_similarity :: "int \<Rightarrow> int \<Rightarrow> int" where
  "example_similarity a b = - \<bar>a - b\<bar>"

text \<open>
  A body whose second read throws; a page as it is once mounted and initialised, holding
  the greeting, in which the user has typed a question; and a project that is ready for
  chat.
\<close>

definition failing_reader :: body_reader where
  "failing_reader n = (if n = 0 then ReadValue ''par'' else ReadFailed (JsError ''network error''))"



section \<open>Properties of the authentication gate\<close>

lemma matcher_dashboard: "prefix ''/dashboard'' p \<Longrightarrow> matcher p"
  by (auto simp: matcher_def favicon_alternative_def prefix_def)

text \<open>
  C10. A request whose path starts with \<open>/dashboard\<close> and that carries no session is
  selected by the matcher and answered with a redirect to \<open>/\<close>; a request that carries a
  session continues unchanged; and the dashboard layout renders only for a session with
  a user, redirecting to \<open>/\<close> in every other case.
\<close>

theorem dashboard_requires_auth:
  "(prefix ''/dashboard'' (pathname req) \<and> auth req = None
      \<longrightarrow> matcher (pathname req) \<and> run_middleware req = Redirect ''/'')
   \<and> (auth req \<noteq> None \<longrightarrow> run_middleware req = Next)
   \<and> (Option.bind sess session_user = None \<longrightarrow> DashboardLayout sess = LayoutRedirect ''/'')
   \<and> (\<forall>u. DashboardLayout sess = Render u \<longrightarrow> Option.bind sess session_user = Some u)"
proof (intro conjI impI allI)
  assume h: "prefix ''/dashboard'' (pathname req) \<and> auth req = None"
  then show "matcher (pathname req)"
    by (simp add: matcher_dashboard)
  with h show "run_middleware req = Redirect ''/''"
    by (simp add: run_middleware_def middleware_def)
next
  assume "auth req \<noteq> None"
  then show "run_middleware req = Next"
    by (simp add: run_middleware_def middleware_def)
next
  assume "Option.bind sess session_user = None"
  then show "DashboardLayout sess = LayoutRedirect ''/''"
    by (cases sess) (auto simp: DashboardLayout_def split: option.splits)
next
  fix u
  assume "DashboardLayout sess = Render u"
  then show "Option.bind sess session_user = Some u"
    by (cases sess) (auto simp: DashboardLayout_def split: option.splits)
qed

theorem dashboard_requires_auth_witness:
  "run_middleware \<lparr>pathname = ''/dashboard/project/7/chart'', auth = None\<rparr> = Redirect ''/''
   \<and> run_middleware \<lparr>pathname = ''/dashboard'', auth = Some \<lparr>session_user = Some ''u1''\<rparr>\<rparr> = Next
   \<and> DashboardLayout (Some \<lparr>session_user = None\<rparr>) = LayoutRedirect ''/''
   \<and> DashboardLayout (Some \<lparr>session_user = Some ''u1''\<rparr>) = Render ''u1''"
  using dashboard_requires_auth
          [of "\<lparr>pathname = ''/dashboard/project/7/chart'', auth = None\<rparr>"
              "Some \<lparr>session_user = None\<rparr>"]
        dashboard_requires_auth
          [of "\<lparr>pathname = ''/dashboard'', auth = Some \<lparr>session_user = Some ''u1''\<rparr>\<rparr>"
              "Some \<lparr>session_user = Some ''u1''\<rparr>"]
  by (simp add: DashboardLayout_def)

section \<open>Properties of the chat turn\<close>

lemma read_loop_relays_aux:
  assumes "read_loop dec cb reader n st = Some y"
  shows "\<forall>f. cb = Some f \<longrightarrow>
     (\<exists>suf. events (snd y) = events st @ suf \<and> relayed suf
            \<and> fullContent (snd y) = fullContent st @ concat (decoded suf))"
proof (rule read_loop.raw_induct
    [where P = "\<lambda>dec cb reader n st y. \<forall>f. cb = Some f \<longrightarrow>
       (\<exists>suf. events (snd y) = events st @ suf \<and> relayed suf
            \<and> fullContent (snd y) = fullContent st @ concat (decoded suf))", OF _ assms],
    goal_cases)
  case (1 loop dec cb reader n st y)
  show ?case
  proof (intro allI impI)
    fix f assume cb: "cb = Some f"
    show "\<exists>suf. events (snd y) = events st @ suf \<and> relayed suf
            \<and> fullContent (snd y) = fullContent st @ concat (decoded suf)"
    proof (cases "reader n")
      case (ReadValue v)
      obtain chunk d' where dv: "dec (decoder st) v = (chunk, d')" by (cases "dec (decoder st) v")
      define st1 where "st1 = st\<lparr>decoder := d', fullContent := fullContent st @ chunk,
                     events := events st @ [Read, Decoded chunk]\<rparr>"
      show ?thesis
      proof (cases "f chunk (caller st1)")
        case (Inl e)
        with 1(2) ReadValue dv cb have "y = (Some e, st1\<lparr>events := events st1 @ [Emit chunk]\<rparr>)"
          by (simp add: Let_def st1_def)
        then show ?thesis
          by (intro exI[of _ "[Read, Decoded chunk, Emit chunk]"]) (simp add: st1_def)
      next
        case (Inr c)
        define st2 where "st2 = st1\<lparr>caller := c, events := events st1 @ [Emit chunk]\<rparr>"
        from 1(2) ReadValue dv cb Inr have "loop dec cb reader (n + 1) st2 = Some y"
          by (simp add: Let_def st1_def st2_def)
        from 1(1)[OF this] cb obtain suf where
          "events (snd y) = events st2 @ suf" "relayed suf"
          "fullContent (snd y) = fullContent st2 @ concat (decoded suf)" by blast
        then show ?thesis
          by (intro exI[of _ "[Read, Decoded chunk, Emit chunk] @ suf"]) (simp add: st1_def st2_def)
      qed
    next
      case ReadDone
      with 1(2) show ?thesis by (intro exI[of _ "[Read]"]) auto
    next
      case (ReadFailed e)
      with 1(2) show ?thesis by (intro exI[of _ "[Read]"]) auto
    qed
  qed
qed

lemma relayed_emitted: "relayed evs \<Longrightarrow> emitted evs = decoded evs"
  by (induction evs rule: relayed.induct) auto

lemma send_relayed:
  assumes "sendChatMessage br projectId message userId (Some f) c0 = Some (result, c, evs)"
  shows "relayed evs"
proof -
  have loop: "relayed (events st)"
    if "read_loop (decode br) (Some f) reader 0
          \<lparr>fullContent = [], decoder = new_decoder br, caller = c0, events = []\<rparr> = Some (exc, st)"
    for reader exc st
    using read_loop_relays_aux[OF that] by auto
  from assms show ?thesis
    by (auto simp: sendChatMessage_def Let_def loop
             split: sum.splits if_splits option.splits prod.splits)
qed

lemma send_success:
  assumes "sendChatMessage br projectId message userId (Some f) c0 = Some (result, c, evs)"
      and "success result"
  shows "\<exists>d. result = succeed d \<and> role d = Assistant \<and> content d = concat (emitted evs)"
proof -
  have loop: "fullContent st = concat (emitted (events st))"
    if "read_loop (decode br) (Some f) reader 0
          \<lparr>fullContent = [], decoder = new_decoder br, caller = c0, events = []\<rparr> = Some (exc, st)"
    for reader exc st
    using read_loop_relays_aux[OF that] by (auto simp: relayed_emitted)
  from assms show ?thesis
    by (auto simp: sendChatMessage_def Let_def loop failed_def succeed_def
             split: sum.splits if_splits option.splits prod.splits)
qed


lemma trim_examples:
  "js_trim '' hi'' = ''hi''"
  "js_trim ''hi'' = ''hi''"
  "js_trim ''again'' = ''again''"
  "js_trim [] = []"
  by (simp_all add: js_trim_def trimStart.simps trimEnd.simps space_at_start_def space_at_end_def
        is_space_def wide_spaces_def)

lemma example_not_blocked: "\<not> submit_blocked example_ui"
  by (simp add: submit_blocked_def example_ui_def trim_examples)

lemma example_turn_send:
  "sendChatMessage (example_browser \<lparr>ok = True, body = Some example_reader\<rparr>) ''p1''
     (js_trim (input example_ui)) None (Some handleSubmit_onChunk)
     (snd (handleSubmit_begin 1 example_ui))
   = Some (succeed \<lparr>msg_id = ''uuid-1'', role = Assistant, content = ''Hello'', timestamp = 7\<rparr>,
           (snd (handleSubmit_begin 1 example_ui))\<lparr>streamingContent := ''Hello''\<rparr>,
           [Read, Decoded ''Hel'', Emit ''Hel'', Read, Decoded ''lo'', Emit ''lo'', Read])"
  by (simp add: sendChatMessage_def example_browser_def example_reader_def example_decode_def
        read_loop.simps handleSubmit_onChunk_def nonempty_opt_def Let_def handleSubmit_begin_def)

lemma send_unfold:
  "sendChatMessage br projectId message userId onChunk c0 =
     (case fetch br (chat_request br projectId message userId) of
        Inl e \<Rightarrow> Some (failed e, c0, [])
      | Inr response \<Rightarrow>
          if \<not> ok response then Some (failed (JsError ''Failed to send message''), c0, [])
          else
            (case body response of
               None \<Rightarrow>
                 Some (succeed \<lparr>msg_id = randomUUID br, role = Assistant, content = [],
                                timestamp = clock br\<rparr>, c0, [])
             | Some reader \<Rightarrow>
                 (case read_loop (decode br) onChunk reader 0
                         \<lparr>fullContent = [], decoder = new_decoder br, caller = c0, events = []\<rparr> of
                    None \<Rightarrow> None
                  | Some (Some e, st) \<Rightarrow> Some (failed e, caller st, events st)
                  | Some (None, st) \<Rightarrow>
                      Some (succeed \<lparr>msg_id = randomUUID br, role = Assistant,
                                     content = fullContent st, timestamp = clock br\<rparr>,
                            caller st, events st))))"
  by (cases "nonempty_opt userId") (simp_all add: sendChatMessage_def chat_request_def Let_def)

lemma read_loop_blocks:
  assumes "yields reader n bs"
      and "decode_blocks dec (decoder st) bs = (chunks, d)"
  shows "read_loop dec (Some (\<lambda>ch c. Inr (g ch c))) reader n st
         = read_loop dec (Some (\<lambda>ch c. Inr (g ch c))) reader (n + length bs)
             (st\<lparr>fullContent := fullContent st @ concat chunks, decoder := d,
                 caller := foldl (\<lambda>c ch. g ch c) (caller st) chunks,
                 events := events st @ relay_steps chunks\<rparr>)"
  using assms
proof (induction bs arbitrary: n st chunks)
  case Nil
  then show ?case by (auto simp: relay_steps_def)
next
  case (Cons v vs)
  obtain chunk d' where dv: "dec (decoder st) v = (chunk, d')" by (cases "dec (decoder st) v")
  obtain rest d'' where dr: "decode_blocks dec d' vs = (rest, d'')"
    by (cases "decode_blocks dec d' vs")
  from Cons.prems(2) dv dr have chunks: "chunks = chunk # rest" and d: "d = d''" by simp_all
  from Cons.prems(1) have head: "reader n = ReadValue v"
    and tail: "yields reader (Suc n) vs"
    by simp_all
  define st2 where "st2 = st\<lparr>decoder := d', fullContent := fullContent st @ chunk,
      events := events st @ [Read, Decoded chunk], caller := g chunk (caller st),
      events := events st @ [Read, Decoded chunk] @ [Emit chunk]\<rparr>"
  have step: "read_loop dec (Some (\<lambda>ch c. Inr (g ch c))) reader n st
              = read_loop dec (Some (\<lambda>ch c. Inr (g ch c))) reader (Suc n) st2"
    by (subst read_loop.simps) (simp add: head dv Let_def st2_def)
  have "decode_blocks dec (decoder st2) vs = (rest, d)" using dr d by (simp add: st2_def)
  from Cons.IH[OF tail this] step show ?case
    by (simp add: chunks d st2_def relay_steps_def)
qed

lemma read_loop_ends:
  "reader n = ReadDone \<Longrightarrow>
   read_loop dec cb reader n st = Some (None, st\<lparr>events := events st @ [Read]\<rparr>)"
  "reader n = ReadFailed e \<Longrightarrow>
   read_loop dec cb reader n st = Some (Some e, st\<lparr>events := events st @ [Read]\<rparr>)"
  by (subst read_loop.simps, simp)+

lemma send_fetch_throws:
  "fetch br (chat_request br projectId message userId) = Inl e \<Longrightarrow>
   sendChatMessage br projectId message userId onChunk c0 = Some (failed e, c0, [])"
  by (simp add: send_unfold)

lemma send_not_ok:
  "fetch br (chat_request br projectId message userId) = Inr response \<Longrightarrow> \<not> ok response \<Longrightarrow>
   sendChatMessage br projectId message userId onChunk c0
     = Some (failed (JsError ''Failed to send message''), c0, [])"
  by (simp add: send_unfold)

lemma send_no_body:
  "fetch br (chat_request br projectId message userId) = Inr response \<Longrightarrow> ok response \<Longrightarrow>
   body response = None \<Longrightarrow>
   sendChatMessage br projectId message userId onChunk c0
     = Some (succeed \<lparr>msg_id = randomUUID br, role = Assistant, content = [],
                      timestamp = clock br\<rparr>, c0, [])"
  by (simp add: send_unfold)

lemma send_stream_done:
  assumes "fetch br (chat_request br projectId message userId) = Inr response" "ok response"
      and "body response = Some reader"
      and "yields reader 0 bs"
      and "decode_blocks (decode br) (new_decoder br) bs = (chunks, d)"
      and "reader (length bs) = ReadDone"
  shows "sendChatMessage br projectId message userId (Some (\<lambda>ch c. Inr (g ch c))) c0
     = Some (succeed \<lparr>msg_id = randomUUID br, role = Assistant, content = concat chunks,
                      timestamp = clock br\<rparr>,
             foldl (\<lambda>c ch. g ch c) c0 chunks, relay_steps chunks @ [Read])"
proof -
  let ?st0 = "\<lparr>fullContent = [], decoder = new_decoder br, caller = c0, events = []\<rparr>"
  have "read_loop (decode br) (Some (\<lambda>ch c. Inr (g ch c))) reader 0 ?st0
        = Some (None, \<lparr>fullContent = concat chunks, decoder = d,
                       caller = foldl (\<lambda>c ch. g ch c) c0 chunks,
                       events = relay_steps chunks @ [Read]\<rparr>)"
    using read_loop_blocks[where reader = reader and n = 0 and bs = bs and dec = "decode br"
            and st = ?st0 and chunks = chunks and d = d and g = g] assms(4,5,6)
    by (simp add: read_loop_ends)
  with assms(1-3) show ?thesis by (simp add: send_unfold)
qed

lemma send_stream_failed:
  assumes "fetch br (chat_request br projectId message userId) = Inr response" "ok response"
      and "body response = Some reader"
      and "yields reader 0 bs"
      and "decode_blocks (decode br) (new_decoder br) bs = (chunks, d)"
      and "reader (length bs) = ReadFailed e"
  shows "sendChatMessage br projectId message userId (Some (\<lambda>ch c. Inr (g ch c))) c0
     = Some (failed e, foldl (\<lambda>c ch. g ch c) c0 chunks, relay_steps chunks @ [Read])"
proof -
  let ?st0 = "\<lparr>fullContent = [], decoder = new_decoder br, caller = c0, events = []\<rparr>"
  have "read_loop (decode br) (Some (\<lambda>ch c. Inr (g ch c))) reader 0 ?st0
        = Some (Some e, \<lparr>fullContent = concat chunks, decoder = d,
                       caller = foldl (\<lambda>c ch. g ch c) c0 chunks,
                       events = relay_steps chunks @ [Read]\<rparr>)"
    using read_loop_blocks[where reader = reader and n = 0 and bs = bs and dec = "decode br"
            and st = ?st0 and chunks = chunks and d = d and g = g] assms(4,5,6)
    by (simp add: read_loop_ends)
  with assms(1-3) show ?thesis by (simp add: send_unfold)
qed

lemma onChunk_pure:
  "handleSubmit_onChunk = (\<lambda>ch c. Inr (c\<lparr>streamingContent := streamingContent c @ ch\<rparr>))"
  by (intro ext) (simp add: handleSubmit_onChunk_def)

lemma example_fetch:
  "fetch (example_browser response) req = Inr response"
  by (simp add: example_browser_def)

text \<open>
  C1. Take a chat turn whose response is OK and has a body, and any blocks \<open>bs\<close> that the
  reader delivers first, decoded to \<open>chunks\<close>. Reading those blocks takes exactly the steps
  \<open>relay_steps chunks\<close>: each block is read, decoded and passed to the callback before the
  next block is read, and by then the callback has received every chunk decoded so far;
  this holds whether or not the body ever ends, so nothing waits for the full answer. When
  the body ends or fails after these blocks, the call returns with the callback applied to
  all the chunks in order, after one last read. For any callback, also one that throws,
  the steps of a call that returns have this form and the chunks passed on are the chunks
  decoded.
\<close>

theorem chunks_relayed_incrementally:
  assumes "fetch br (chat_request br projectId message userId) = Inr response"
      and "ok response"
      and "body response = Some reader"
      and "yields reader 0 bs"
      and "decode_blocks (decode br) (new_decoder br) bs = (chunks, d)"
  shows "read_loop (decode br) (Some (\<lambda>ch c. Inr (g ch c))) reader 0
           \<lparr>fullContent = [], decoder = new_decoder br, caller = c0, events = []\<rparr>
         = read_loop (decode br) (Some (\<lambda>ch c. Inr (g ch c))) reader (length bs)
             \<lparr>fullContent = concat chunks, decoder = d,
              caller = foldl (\<lambda>c ch. g ch c) c0 chunks, events = relay_steps chunks\<rparr>
       \<and> (\<not> is_value (reader (length bs)) \<longrightarrow>
            (\<exists>result. sendChatMessage br projectId message userId (Some (\<lambda>ch c. Inr (g ch c))) c0
               = Some (result, foldl (\<lambda>c ch. g ch c) c0 chunks, relay_steps chunks @ [Read])))
       \<and> (\<forall>result c evs. sendChatMessage br projectId message userId (Some onChunk) c0
               = Some (result, c, evs) \<longrightarrow> relayed evs \<and> emitted evs = decoded evs)"
proof (intro conjI impI allI)
  show "read_loop (decode br) (Some (\<lambda>ch c. Inr (g ch c))) reader 0
           \<lparr>fullContent = [], decoder = new_decoder br, caller = c0, events = []\<rparr>
         = read_loop (decode br) (Some (\<lambda>ch c. Inr (g ch c))) reader (length bs)
             \<lparr>fullContent = concat chunks, decoder = d,
              caller = foldl (\<lambda>c ch. g ch c) c0 chunks, events = relay_steps chunks\<rparr>"
    using read_loop_blocks[where reader = reader and n = 0 and bs = bs and dec = "decode br"
            and st = "\<lparr>fullContent = [], decoder = new_decoder br, caller = c0, events = []\<rparr>"
            and chunks = chunks and d = d and g = g] assms(4,5)
    by simp
next
  assume "\<not> is_value (reader (length bs))"
  then consider "reader (length bs) = ReadDone" | e where "reader (length bs) = ReadFailed e"
    by (cases "reader (length bs)") auto
  then show "\<exists>result. sendChatMessage br projectId message userId (Some (\<lambda>ch c. Inr (g ch c))) c0
               = Some (result, foldl (\<lambda>c ch. g ch c) c0 chunks, relay_steps chunks @ [Read])"
  proof cases
    case 1
    from send_stream_done[OF assms 1, where g = g and ?c0.0 = c0] show ?thesis by blast
  next
    case 2
    from send_stream_failed[OF assms 2, where g = g and ?c0.0 = c0] show ?thesis by blast
  qed
next
  fix result c evs
  assume "sendChatMessage br projectId message userId (Some onChunk) c0 = Some (result, c, evs)"
  then show "relayed evs" by (rule send_relayed)
next
  fix result c evs
  assume "sendChatMessage br projectId message userId (Some onChunk) c0 = Some (result, c, evs)"
  then have "relayed evs" by (rule send_relayed)
  then show "emitted evs = decoded evs" by (rule relayed_emitted)
qed

theorem chunks_relayed_incrementally_witness:
  "snd (the (sendChatMessage (example_browser \<lparr>ok = True, body = Some example_reader\<rparr>) ''p1''
               ''hi'' None (Some handleSubmit_onChunk) example_ui))
   = (example_ui\<lparr>streamingContent := ''Hello''\<rparr>,
      [Read, Decoded ''Hel'', Emit ''Hel'', Read, Decoded ''lo'', Emit ''lo'', Read])"
proof -
  let ?br = "example_browser \<lparr>ok = True, body = Some example_reader\<rparr>"
  have y: "yields example_reader 0 [''Hel'', ''lo'']" by (simp add: example_reader_def)
  have dc: "decode_blocks (decode ?br) (new_decoder ?br) [''Hel'', ''lo''] = ([''Hel'', ''lo''], ())"
    by (simp add: example_browser_def example_decode_def)
  have e: "\<not> is_value (example_reader (length [''Hel'', ''lo'']))" by (simp add: example_reader_def)
  have okb: "ok \<lparr>ok = True, body = Some example_reader\<rparr>"
    "body \<lparr>ok = True, body = Some example_reader\<rparr> = Some example_reader"
    by simp_all
  note T = chunks_relayed_incrementally[OF example_fetch okb y dc,
         where g = "\<lambda>ch c. c\<lparr>streamingContent := streamingContent c @ ch\<rparr>"
           and projectId = "''p1''" and message = "''hi''" and userId = None and ?c0.0 = example_ui]
  from T[THEN conjunct2, THEN conjunct1, THEN mp, OF e]
  obtain result where
    "sendChatMessage ?br ''p1'' ''hi'' None
       (Some (\<lambda>ch c. Inr (c\<lparr>streamingContent := streamingContent c @ ch\<rparr>))) example_ui
       = Some (result,
               foldl (\<lambda>c ch. c\<lparr>streamingContent := streamingContent c @ ch\<rparr>) example_ui
                 [''Hel'', ''lo''],
               relay_steps [''Hel'', ''lo''] @ [Read])"
    by blast
  then have "snd (the (sendChatMessage ?br ''p1'' ''hi'' None (Some handleSubmit_onChunk) example_ui))
       = (foldl (\<lambda>c ch. c\<lparr>streamingContent := streamingContent c @ ch\<rparr>) example_ui
                 [''Hel'', ''lo''],
          relay_steps [''Hel'', ''lo''] @ [Read])"
    by (simp add: onChunk_pure)
  then show ?thesis by (simp add: relay_steps_def example_ui_def)
qed

lemma read_loop_onChunk_stream:
  assumes "read_loop dec (Some handleSubmit_onChunk) reader n st = Some y"
  shows "\<exists>suf. events (snd y) = events st @ suf
           \<and> caller (snd y) = (caller st)\<lparr>streamingContent :=
                 streamingContent (caller st) @ concat (emitted suf)\<rparr>"
proof (rule read_loop.raw_induct
    [where P = "\<lambda>dec cb reader n st y. cb = Some handleSubmit_onChunk \<longrightarrow>
       (\<exists>suf. events (snd y) = events st @ suf
           \<and> caller (snd y) = (caller st)\<lparr>streamingContent :=
                 streamingContent (caller st) @ concat (emitted suf)\<rparr>)", OF _ assms, THEN mp],
    goal_cases)
  case (1 loop dec cb reader n st y)
  show ?case
  proof
    assume cb: "cb = Some handleSubmit_onChunk"
    show "\<exists>suf. events (snd y) = events st @ suf
           \<and> caller (snd y) = (caller st)\<lparr>streamingContent :=
                 streamingContent (caller st) @ concat (emitted suf)\<rparr>"
    proof (cases "reader n")
      case (ReadValue v)
      obtain chunk d' where dv: "dec (decoder st) v = (chunk, d')" by (cases "dec (decoder st) v")
      define st2 where "st2 = st\<lparr>decoder := d', fullContent := fullContent st @ chunk,
          events := events st @ [Read, Decoded chunk],
          caller := (caller st)\<lparr>streamingContent := streamingContent (caller st) @ chunk\<rparr>,
          events := events st @ [Read, Decoded chunk] @ [Emit chunk]\<rparr>"
      from 1(2) ReadValue dv cb have "loop dec cb reader (n + 1) st2 = Some y"
        by (simp add: Let_def st2_def handleSubmit_onChunk_def)
      from 1(1)[OF this] cb obtain suf where
        "events (snd y) = events st2 @ suf"
        "caller (snd y) = (caller st2)\<lparr>streamingContent :=
                 streamingContent (caller st2) @ concat (emitted suf)\<rparr>"
        by blast
      then show ?thesis
        by (intro exI[of _ "[Read, Decoded chunk, Emit chunk] @ suf"]) (simp add: st2_def)
    next
      case ReadDone
      with 1(2) show ?thesis by (intro exI[of _ "[Read]"]) auto
    next
      case (ReadFailed e)
      with 1(2) show ?thesis by (intro exI[of _ "[Read]"]) auto
    qed
  qed
qed simp

lemma send_onChunk_stream:
  assumes "sendChatMessage br projectId message userId (Some handleSubmit_onChunk) c0
             = Some (result, c, evs)"
  shows "c = c0\<lparr>streamingContent := streamingContent c0 @ concat (emitted evs)\<rparr>"
proof -
  have loop: "caller st = c0\<lparr>streamingContent := streamingContent c0 @ concat (emitted (events st))\<rparr>"
    if "read_loop (decode br) (Some handleSubmit_onChunk) reader 0
          \<lparr>fullContent = [], decoder = new_decoder br, caller = c0, events = []\<rparr> = Some (exc, st)"
    for reader exc st
    using read_loop_onChunk_stream[OF that] by auto
  from assms show ?thesis
    by (auto simp: sendChatMessage_def Let_def
             split: sum.splits if_splits option.splits prod.splits dest: loop)
qed

lemma handleSubmit_unfold:
  assumes "\<not> submit_blocked st"
      and "sendChatMessage br projectId (js_trim (input st)) userId (Some handleSubmit_onChunk)
             (snd (handleSubmit_begin t0 st)) = Some (result, st2, evs)"
  shows "handleSubmit br projectId userId t0 t1 st = Some (handleSubmit_finish result t1 st2, evs)"
    and "messages st2 = messages st @ [fst (handleSubmit_begin t0 st)]"
proof -
  from assms show "handleSubmit br projectId userId t0 t1 st = Some (handleSubmit_finish result t1 st2, evs)"
    by (simp add: handleSubmit_def handleSubmit_begin_def Let_def)
  from send_onChunk_stream[OF assms(2)]
  have "messages st2 = messages (snd (handleSubmit_begin t0 st))" by simp
  then show "messages st2 = messages st @ [fst (handleSubmit_begin t0 st)]"
    by (simp add: handleSubmit_begin_def Let_def)
qed

text \<open>
  C5. When a chat turn completes successfully, \<open>handleSubmit\<close> appends the user message
  and then one message with role assistant whose content is the concatenation, in order,
  of the chunks that were passed to the callback during the turn.
\<close>

theorem assistant_message_is_streamed_text:
  assumes "\<not> submit_blocked st"
      and "sendChatMessage br projectId (js_trim (input st)) userId (Some handleSubmit_onChunk)
             (snd (handleSubmit_begin t0 st)) = Some (result, st2, evs)"
      and "success result"
  shows "\<exists>st'. handleSubmit br projectId userId t0 t1 st = Some (st', evs)
           \<and> messages st' = messages st @
                 [fst (handleSubmit_begin t0 st),
                  \<lparr>msg_id = show_nat (t1 + 1), role = Assistant, content = concat (emitted evs),
                   timestamp = t1\<rparr>]"
proof -
  from send_success[OF assms(2,3)] obtain d where
    d: "result = succeed d" "content d = concat (emitted evs)" by blast
  have "messages (handleSubmit_finish result t1 st2) = messages st2 @
          [\<lparr>msg_id = show_nat (t1 + 1), role = Assistant, content = concat (emitted evs), timestamp = t1\<rparr>]"
    using d by (simp add: handleSubmit_finish_def usable_def succeed_def Let_def)
  with handleSubmit_unfold[OF assms(1,2)] show ?thesis by simp
qed

lemma turn_outcome:
  assumes "\<not> submit_blocked st"
      and "sendChatMessage br projectId (js_trim (input st)) userId (Some handleSubmit_onChunk)
             (snd (handleSubmit_begin t0 st)) = Some (result, st2, evs)"
  shows "\<exists>st'. handleSubmit br projectId userId t0 t1 st = Some (st', evs)
           \<and> messages st' = messages st @
                [fst (handleSubmit_begin t0 st),
                 assistant_reply t1
                   (case usable result of
                      Some d \<Rightarrow> content d
                    | None \<Rightarrow> ''Sorry, I encountered an error: ''
                              @ js_string (error_or result ''Unknown error'')
                              @ ''. Please try again.'')]"
proof -
  have "messages (handleSubmit_finish result t1 st2) = messages st2 @
          [assistant_reply t1
             (case usable result of
                Some d \<Rightarrow> content d
              | None \<Rightarrow> ''Sorry, I encountered an error: ''
                        @ js_string (error_or result ''Unknown error'')
                        @ ''. Please try again.'')]"
    by (cases "usable result") (simp_all add: handleSubmit_finish_def Let_def)
  with handleSubmit_unfold[OF assms] show ?thesis by simp
qed

lemma failed_outcome:
  "usable (failed e :: chat_message api_response) = None"
  "error_or (failed e :: chat_message api_response) fallback = js_or (getErrorMessage e) (JStr fallback)"
  by (simp_all add: usable_def failed_def error_or_def)

lemma succeed_outcome: "usable (succeed d) = Some d"
  by (simp add: usable_def succeed_def)

text \<open>
  C2 (amended). In a turn that the page starts, each of the three failures ends in an
  assistant message with the text "Sorry, I encountered an error: ... Please try again.",
  which is never empty: the request throws, the response is not OK, or a read of the body
  throws after any number of blocks. When the response is OK and the body is read to its
  end, or there is no body, the assistant message is the decoded text as it is, which is
  empty when the body carries no text.
\<close>

theorem failed_turn_appends_error_message:
  assumes "\<not> submit_blocked st"
  shows "(fetch br (chat_request br projectId (js_trim (input st)) userId) = Inl e \<longrightarrow>
           (\<exists>st'. handleSubmit br projectId userId t0 t1 st = Some (st', [])
              \<and> messages st' = messages st @
                   [fst (handleSubmit_begin t0 st), assistant_reply t1 (error_text e)]))
       \<and> (fetch br (chat_request br projectId (js_trim (input st)) userId) = Inr response
            \<and> \<not> ok response \<longrightarrow>
           (\<exists>st'. handleSubmit br projectId userId t0 t1 st = Some (st', [])
              \<and> messages st' = messages st @
                   [fst (handleSubmit_begin t0 st),
                    assistant_reply t1 (error_text (JsError ''Failed to send message''))]))
       \<and> (fetch br (chat_request br projectId (js_trim (input st)) userId) = Inr response
            \<and> ok response \<and> body response = Some reader \<and> yields reader 0 bs
            \<and> decode_blocks (decode br) (new_decoder br) bs = (chunks, d)
            \<and> reader (length bs) = ReadFailed e \<longrightarrow>
           (\<exists>st'. handleSubmit br projectId userId t0 t1 st
                     = Some (st', relay_steps chunks @ [Read])
              \<and> messages st' = messages st @
                   [fst (handleSubmit_begin t0 st), assistant_reply t1 (error_text e)]))
       \<and> (fetch br (chat_request br projectId (js_trim (input st)) userId) = Inr response
            \<and> ok response \<and> body response = Some reader \<and> yields reader 0 bs
            \<and> decode_blocks (decode br) (new_decoder br) bs = (chunks, d)
            \<and> reader (length bs) = ReadDone \<longrightarrow>
           (\<exists>st'. handleSubmit br projectId userId t0 t1 st
                     = Some (st', relay_steps chunks @ [Read])
              \<and> messages st' = messages st @
                   [fst (handleSubmit_begin t0 st), assistant_reply t1 (concat chunks)]))
       \<and> (fetch br (chat_request br projectId (js_trim (input st)) userId) = Inr response
            \<and> ok response \<and> body response = None \<longrightarrow>
           (\<exists>st'. handleSubmit br projectId userId t0 t1 st = Some (st', [])
              \<and> messages st' = messages st @
                   [fst (handleSubmit_begin t0 st), assistant_reply t1 []]))
       \<and> error_text e \<noteq> []"
proof (intro conjI impI)
  assume "fetch br (chat_request br projectId (js_trim (input st)) userId) = Inl e"
  from turn_outcome[OF assms send_fetch_throws[OF this], of t0 t1]
  show "\<exists>st'. handleSubmit br projectId userId t0 t1 st = Some (st', [])
              \<and> messages st' = messages st @
                   [fst (handleSubmit_begin t0 st), assistant_reply t1 (error_text e)]"
    by (simp add: failed_outcome)
next
  assume "fetch br (chat_request br projectId (js_trim (input st)) userId) = Inr response
            \<and> \<not> ok response"
  then have f: "fetch br (chat_request br projectId (js_trim (input st)) userId) = Inr response"
    and k: "\<not> ok response" by simp_all
  from turn_outcome[OF assms send_not_ok[OF f k], of t0 t1]
  show "\<exists>st'. handleSubmit br projectId userId t0 t1 st = Some (st', [])
              \<and> messages st' = messages st @
                   [fst (handleSubmit_begin t0 st),
                    assistant_reply t1 (error_text (JsError ''Failed to send message''))]"
    by (simp add: failed_outcome)
next
  assume "fetch br (chat_request br projectId (js_trim (input st)) userId) = Inr response
            \<and> ok response \<and> body response = Some reader \<and> yields reader 0 bs
            \<and> decode_blocks (decode br) (new_decoder br) bs = (chunks, d)
            \<and> reader (length bs) = ReadFailed e"
  then have h: "fetch br (chat_request br projectId (js_trim (input st)) userId) = Inr response"
    "ok response" "body response = Some reader" "yields reader 0 bs"
    "decode_blocks (decode br) (new_decoder br) bs = (chunks, d)"
    "reader (length bs) = ReadFailed e" by simp_all
  have "sendChatMessage br projectId (js_trim (input st)) userId (Some handleSubmit_onChunk)
          (snd (handleSubmit_begin t0 st))
        = Some (failed e,
                foldl (\<lambda>c ch. c\<lparr>streamingContent := streamingContent c @ ch\<rparr>)
                  (snd (handleSubmit_begin t0 st)) chunks,
                relay_steps chunks @ [Read])"
    unfolding onChunk_pure by (rule send_stream_failed[OF h])
  from turn_outcome[OF assms this, of t1]
  show "\<exists>st'. handleSubmit br projectId userId t0 t1 st
                     = Some (st', relay_steps chunks @ [Read])
              \<and> messages st' = messages st @
                   [fst (handleSubmit_begin t0 st), assistant_reply t1 (error_text e)]"
    by (simp add: failed_outcome)
next
  assume "fetch br (chat_request br projectId (js_trim (input st)) userId) = Inr response
            \<and> ok response \<and> body response = Some reader \<and> yields reader 0 bs
            \<and> decode_blocks (decode br) (new_decoder br) bs = (chunks, d)
            \<and> reader (length bs) = ReadDone"
  then have h: "fetch br (chat_request br projectId (js_trim (input st)) userId) = Inr response"
    "ok response" "body response = Some reader" "yields reader 0 bs"
    "decode_blocks (decode br) (new_decoder br) bs = (chunks, d)"
    "reader (length bs) = ReadDone" by simp_all
  have "sendChatMessage br projectId (js_trim (input st)) userId (Some handleSubmit_onChunk)
          (snd (handleSubmit_begin t0 st))
        = Some (succeed \<lparr>msg_id = randomUUID br, role = Assistant, content = concat chunks,
                         timestamp = clock br\<rparr>,
                foldl (\<lambda>c ch. c\<lparr>streamingContent := streamingContent c @ ch\<rparr>)
                  (snd (handleSubmit_begin t0 st)) chunks,
                relay_steps chunks @ [Read])"
    unfolding onChunk_pure by (rule send_stream_done[OF h])
  from turn_outcome[OF assms this, of t1]
  show "\<exists>st'. handleSubmit br projectId userId t0 t1 st
                     = Some (st', relay_steps chunks @ [Read])
              \<and> messages st' = messages st @
                   [fst (handleSubmit_begin t0 st), assistant_reply t1 (concat chunks)]"
    by (simp add: succeed_outcome)
next
  assume "fetch br (chat_request br projectId (js_trim (input st)) userId) = Inr response
            \<and> ok response \<and> body response = None"
  then have h: "fetch br (chat_request br projectId (js_trim (input st)) userId) = Inr response"
    "ok response" "body response = None" by simp_all
  from turn_outcome[OF assms send_no_body[OF h], of t0 t1]
  show "\<exists>st'. handleSubmit br projectId userId t0 t1 st = Some (st', [])
              \<and> messages st' = messages st @
                   [fst (handleSubmit_begin t0 st), assistant_reply t1 []]"
    by (simp add: succeed_outcome)
next
  show "error_text e \<noteq> []" by simp
qed

text \<open>
  C2 as stated fails: for a response with status OK whose body ends without any text, the
  turn ends with an assistant message of empty content.
\<close>

theorem empty_answer_counterexample:
  "handleSubmit (example_browser \<lparr>ok = True, body = Some empty_reader\<rparr>) ''p1'' None 1 2 example_ui
   = Some (\<lparr>messages = [\<lparr>msg_id = ''1'', role = User, content = ''hi'', timestamp = 1\<rparr>,
                         \<lparr>msg_id = ''3'', role = Assistant, content = [], timestamp = 2\<rparr>],
             input = [], isLoading = False, isInitializing = False, page_error = None,
             streamingContent = []\<rparr>,
           [Read])"
  by (simp add: handleSubmit_def submit_blocked_def example_ui_def trim_examples
        handleSubmit_begin_def sendChatMessage_def example_browser_def empty_reader_def
        read_loop.simps nonempty_opt_def Let_def handleSubmit_finish_def usable_def succeed_def
        show_nat.simps digit_char_def)


theorem assistant_message_is_streamed_text_witness:
  "map content (messages (fst (the (handleSubmit
       (example_browser \<lparr>ok = True, body = Some example_reader\<rparr>) ''p1'' None 1 2 example_ui))))
   = [''hi'', ''Hello'']"
proof -
  have ok: "success (succeed \<lparr>msg_id = ''uuid-1'', role = Assistant, content = ''Hello'', timestamp = 7\<rparr>)"
    by (simp add: succeed_def)
  from assistant_message_is_streamed_text[OF example_not_blocked example_turn_send ok, of 2]
  show ?thesis
    by (auto simp: example_ui_def handleSubmit_begin_def trim_examples Let_def)
qed

theorem failed_turn_appends_error_message_witness:
  "map content (messages (fst (the (handleSubmit
       (example_browser \<lparr>ok = False, body = None\<rparr>) ''p1'' None 1 2 example_ui))))
     = [''hi'', ''Sorry, I encountered an error: Failed to send message. Please try again.'']
   \<and> map content (messages (fst (the (handleSubmit
       (example_browser \<lparr>ok = True, body = Some failing_reader\<rparr>) ''p1'' None 1 2 example_ui))))
     = [''hi'', ''Sorry, I encountered an error: network error. Please try again.'']"
proof -
  note T1 = failed_turn_appends_error_message[OF example_not_blocked,
     where br = "example_browser \<lparr>ok = False, body = None\<rparr>"
       and response = "\<lparr>ok = False, body = None\<rparr>" and projectId = "''p1''" and userId = None
       and ?t0.0 = 1 and ?t1.0 = 2, THEN conjunct2, THEN conjunct1]
  have a: "map content (messages (fst (the (handleSubmit
       (example_browser \<lparr>ok = False, body = None\<rparr>) ''p1'' None 1 2 example_ui))))
     = [''hi'', ''Sorry, I encountered an error: Failed to send message. Please try again.'']"
    using T1 by (auto simp: example_fetch example_ui_def handleSubmit_begin_def trim_examples
                   Let_def js_or_def)
  let ?br = "example_browser \<lparr>ok = True, body = Some failing_reader\<rparr>"
  have y: "yields failing_reader 0 [''par'']" by (simp add: failing_reader_def)
  have dc: "decode_blocks (decode ?br) (new_decoder ?br) [''par''] = ([''par''], ())"
    by (simp add: example_browser_def example_decode_def)
  have f: "failing_reader (length [''par'']) = ReadFailed (JsError ''network error'')"
    by (simp add: failing_reader_def)
  note T2 = failed_turn_appends_error_message[OF example_not_blocked,
     where br = ?br and response = "\<lparr>ok = True, body = Some failing_reader\<rparr>"
       and reader = failing_reader and bs = "[''par'']" and chunks = "[''par'']" and d = "()"
       and e = "JsError ''network error''"
       and projectId = "''p1''" and userId = None
       and ?t0.0 = 1 and ?t1.0 = 2, THEN conjunct2, THEN conjunct2, THEN conjunct1]
  have b: "map content (messages (fst (the (handleSubmit ?br ''p1'' None 1 2 example_ui))))
     = [''hi'', ''Sorry, I encountered an error: network error. Please try again.'']"
    using T2 y dc f
    by (auto simp: example_fetch example_ui_def handleSubmit_begin_def trim_examples
                   Let_def js_or_def)
  from a b show ?thesis by simp
qed

section \<open>Properties of the chat page\<close>










text \<open>
  A whole call of \<open>handleSubmit\<close> is the run of the page over the events of that turn: the
  submission, the arrival of each chunk, and the return of the call.
\<close>

lemma chunks_arrive:
  "run_page (map ChunkArrived cs) \<lparr>ui = u, running = Suc k\<rparr>
   = \<lparr>ui = u\<lparr>streamingContent := streamingContent u @ concat cs\<rparr>, running = Suc k\<rparr>"
proof (induction cs arbitrary: u)
  case Nil
  show ?case by (simp add: run_page_def)
next
  case (Cons c cs)
  have "run_page (map ChunkArrived (c # cs)) \<lparr>ui = u, running = Suc k\<rparr>
        = run_page (map ChunkArrived cs)
            \<lparr>ui = u\<lparr>streamingContent := streamingContent u @ c\<rparr>, running = Suc k\<rparr>"
    by (simp add: run_page_def handleSubmit_onChunk_def)
  also have "\<dots> = \<lparr>ui = u\<lparr>streamingContent := streamingContent u @ c,
                              streamingContent := (streamingContent u @ c) @ concat cs\<rparr>,
                     running = Suc k\<rparr>"
    using Cons.IH[of "u\<lparr>streamingContent := streamingContent u @ c\<rparr>"] by simp
  finally show ?case by simp
qed

lemma run_page_append: "run_page (xs @ ys) s = run_page ys (run_page xs s)"
  by (simp add: run_page_def)

lemma handleSubmit_as_events:
  assumes "\<not> submit_blocked st"
      and "sendChatMessage br projectId (js_trim (input st)) userId (Some handleSubmit_onChunk)
             (snd (handleSubmit_begin t0 st)) = Some (result, st2, evs)"
  shows "handleSubmit br projectId userId t0 t1 st
           = Some (ui (run_page (FormSubmitted t0 # map ChunkArrived (emitted evs)
                                   @ [TurnReturned result t1]) \<lparr>ui = st, running = 0\<rparr>), evs)"
proof -
  let ?st1 = "snd (handleSubmit_begin t0 st)"
  have st2: "st2 = ?st1\<lparr>streamingContent := streamingContent ?st1 @ concat (emitted evs)\<rparr>"
    by (rule send_onChunk_stream[OF assms(2)])
  have a: "run_page [FormSubmitted t0] \<lparr>ui = st, running = 0\<rparr> = \<lparr>ui = ?st1, running = Suc 0\<rparr>"
    using assms(1) by (simp add: run_page_def start_turn_def)
  have b: "run_page (map ChunkArrived (emitted evs)) \<lparr>ui = ?st1, running = Suc 0\<rparr>
           = \<lparr>ui = st2, running = Suc 0\<rparr>"
    by (simp add: chunks_arrive st2)
  have c: "run_page [TurnReturned result t1] \<lparr>ui = st2, running = Suc 0\<rparr>
           = \<lparr>ui = handleSubmit_finish result t1 st2, running = 0\<rparr>"
    by (simp add: run_page_def)
  have "run_page (FormSubmitted t0 # map ChunkArrived (emitted evs) @ [TurnReturned result t1])
          \<lparr>ui = st, running = 0\<rparr>
        = run_page ([FormSubmitted t0] @ map ChunkArrived (emitted evs) @ [TurnReturned result t1])
          \<lparr>ui = st, running = 0\<rparr>" by simp
  also have "\<dots> = \<lparr>ui = handleSubmit_finish result t1 st2, running = 0\<rparr>"
    by (simp only: run_page_append a b c)
  finally show ?thesis
    using handleSubmit_unfold(1)[OF assms] by simp
qed











section \<open>Properties of the dashboard\<close>






section \<open>Properties of the API client\<close>

















section \<open>Properties of the direct lookups\<close>






section \<open>Properties of the vector index\<close>

lemma ranked_total: "ranked_before a b \<or> ranked_before b a"
  by (auto simp: ranked_before_def)

lemma ranked_trans: "ranked_before a b \<Longrightarrow> ranked_before b c \<Longrightarrow> ranked_before a c"
  by (auto simp: ranked_before_def)

lemma ranked_antisym: "ranked_before a b \<Longrightarrow> ranked_before b a \<Longrightarrow> a = b"
  by (auto simp: ranked_before_def prod_eq_iff)

lemma set_rank_insert: "set (rank_insert x xs) = insert x (set xs)"
  by (induction xs) auto

lemma mset_rank_insert: "mset (rank_insert x xs) = add_mset x (mset xs)"
  by (induction xs) auto

lemma sorted_rank_insert:
  "sorted_wrt ranked_before xs \<Longrightarrow> sorted_wrt ranked_before (rank_insert x xs)"
proof (induction xs)
  case Nil
  then show ?case by simp
next
  case (Cons y ys)
  show ?case
  proof (cases "ranked_before x y")
    case True
    with Cons.prems show ?thesis by (auto intro: ranked_trans)
  next
    case False
    then have "ranked_before y x" using ranked_total[of x y] by blast
    with False Cons show ?thesis by (auto simp: set_rank_insert)
  qed
qed

lemma mset_rank_sort: "mset (rank_sort xs) = mset xs"
  by (induction xs) (simp_all add: rank_sort_def mset_rank_insert)

lemma sorted_rank_sort: "sorted_wrt ranked_before (rank_sort xs)"
  by (induction xs) (simp_all add: rank_sort_def sorted_rank_insert)

lemma ranked_sorted_unique:
  "sorted_wrt ranked_before xs \<Longrightarrow> sorted_wrt ranked_before ys \<Longrightarrow> mset xs = mset ys
   \<Longrightarrow> xs = ys"
proof (induction xs arbitrary: ys)
  case Nil
  then show ?case by simp
next
  case (Cons x xs)
  then obtain y ys' where ys: "ys = y # ys'" by (cases ys) auto
  have "x \<in> set ys" using Cons.prems(3) by (metis list.set_intros(1) set_mset_mset)
  then have xy: "ranked_before y x \<or> x = y" using Cons.prems(2) ys by auto
  have "y \<in> set (x # xs)" using Cons.prems(3) ys by (metis list.set_intros(1) set_mset_mset)
  then have yx: "ranked_before x y \<or> x = y" using Cons.prems(1) by auto
  from xy yx have eq: "x = y" using ranked_antisym by blast
  with Cons.prems ys have "xs = ys'" by (intro Cons.IH) auto
  with eq ys show ?case by simp
qed

lemma rank_sort_permutation:
  "mset xs = mset ys \<Longrightarrow> rank_sort xs = rank_sort ys"
  by (rule ranked_sorted_unique) (simp_all add: sorted_rank_sort mset_rank_sort)

lemma score_records_mset:
  "mset index' = mset index \<Longrightarrow>
   mset (score_records embedText similarity index' q) = mset (score_records embedText similarity index q)"
  by (simp only: score_records_def mset_map)

text \<open>
  C8. For \<open>k\<close> of at least one, \<open>search\<close> returns \<open>min k n\<close> of the \<open>n\<close> scored records, so at
  most \<open>k\<close>; later results never score higher than earlier ones, and of two results with
  the same score the one with the smaller entity id comes first; and the output depends on
  the records of the index only, not on the order in which the index holds them.
\<close>

theorem search_top_k:
  assumes "1 \<le> k"
  shows "length (search embedText similarity index q k) = min k (length index)
     \<and> length (search embedText similarity index q k) \<le> k
     \<and> set (search embedText similarity index q k) \<subseteq> set (score_records embedText similarity index q)
     \<and> (\<forall>i j. i < j \<and> j < length (search embedText similarity index q k) \<longrightarrow>
            snd (search embedText similarity index q k ! j) \<le> snd (search embedText similarity index q k ! i)
            \<and> (snd (search embedText similarity index q k ! j) = snd (search embedText similarity index q k ! i)
                 \<longrightarrow> fst (search embedText similarity index q k ! i)
                       \<le> fst (search embedText similarity index q k ! j)))
     \<and> (mset index' = mset index \<longrightarrow>
           search embedText similarity index' q k = search embedText similarity index q k)"
proof -
  let ?rs = "search embedText similarity index q k"
  let ?all = "rank_sort (score_records embedText similarity index q)"
  have len: "length ?all = length index"
    using mset_rank_sort[of "score_records embedText similarity index q"]
    by (metis length_map score_records_def size_mset)
  then have l1: "length ?rs = min k (length index)" by (simp add: search_def min.commute)
  have sub: "set ?rs \<subseteq> set (score_records embedText similarity index q)"
  proof -
    have "set ?rs \<subseteq> set ?all" by (simp add: search_def set_take_subset)
    also have "set ?all = set (score_records embedText similarity index q)"
      using mset_rank_sort[of "score_records embedText similarity index q"] by (metis set_mset_mset)
    finally show ?thesis .
  qed
  have srt: "sorted_wrt ranked_before ?rs"
    by (simp add: search_def sorted_rank_sort sorted_wrt_take)
  have ord: "snd (?rs ! j) \<le> snd (?rs ! i) \<and> (snd (?rs ! j) = snd (?rs ! i) \<longrightarrow> fst (?rs ! i) \<le> fst (?rs ! j))"
    if "i < j" "j < length ?rs" for i j
  proof -
    from srt that have "ranked_before (?rs ! i) (?rs ! j)" by (simp add: sorted_wrt_iff_nth_less)
    then show ?thesis by (auto simp: ranked_before_def)
  qed
  have det: "search embedText similarity index' q k = ?rs" if "mset index' = mset index"
    using rank_sort_permutation[OF score_records_mset[OF that, of embedText similarity q]]
    by (simp add: search_def)
  from l1 sub ord det show ?thesis by auto
qed

theorem search_top_k_witness:
  "search (\<lambda>q. q) example_similarity example_index 6 3 = [(1, -1), (2, -1), (3, -3)]
   \<and> search (\<lambda>q. q) example_similarity (rev example_index) 6 3 = [(1, -1), (2, -1), (3, -3)]
   \<and> length (search (\<lambda>q. q) example_similarity example_index 6 3) \<le> 3"
proof -
  have k: "(1::nat) \<le> 3" by simp
  have v: "search (\<lambda>q. q) example_similarity example_index 6 3 = [(1, -1), (2, -1), (3, -3)]"
    by (simp add: search_def score_records_def rank_sort_def example_index_def
          example_similarity_def ranked_before_def)
  have p: "mset (rev example_index) = mset example_index" by simp
  from search_top_k[OF k, of "\<lambda>q. q" example_similarity example_index 6 "rev example_index"] v p
  show ?thesis by simp
qed

end
